theory Spec2Isabelle
  imports Complex_Main
begin

section \<open>The experimental activation methods of the array class\<close>

text \<open>
  The source is \<^verbatim>\<open>ivy/data_classes/array/experimental/activations.py\<close>: the class
  \<^verbatim>\<open>_ArrayWithActivationsExperimental\<close> with eleven methods, each of which is one
  \<^verbatim>\<open>return ivy.N(...)\<close>. The model has three layers:
  \<^item> the values, the object store and the backend namespace \<^verbatim>\<open>ivy\<close>, which is a
    parameter of every method (the functions it holds are not part of this file);
  \<^item> the eleven method bodies, one definition each, as functions of their bound
    parameters;
  \<^item> the signatures of the eleven \<^verbatim>\<open>def\<close> lines and Python's binding of positional
    and keyword arguments to them, which decides whether a body is entered at all.
\<close>

subsection \<open>Values, exceptions, state\<close>

text \<open>
  An array object is a reference into the store; its attribute \<^verbatim>\<open>_data\<close> is the native
  buffer of type \<open>'d\<close>. A Python \<^verbatim>\<open>float\<close> is a \<open>real\<close>: the only floats of the source
  are the literal defaults, and nothing here computes with them.
\<close>

type_synonym ref = nat

datatype 'd pyval =
    PNone
  | PInt int
  | PFloat real
  | PStr string
  | PNative 'd
  | PArray ref

text \<open>
  \<open>TypeError\<close> is what a call that does not fit the signature raises. \<open>SystemError\<close>
  stands for a frame whose locals do not fit the code object; \<open>call_method\<close> never
  produces it (lemmas \<open>call_Logit\<close> to \<open>call_Celu\<close>). \<open>Raised e\<close> is any exception of the backend.
\<close>

datatype 'e exn = TypeError | SystemError | Raised 'e

record ('d, 'w) state =
  array_data :: "ref \<Rightarrow> 'd"
  world :: 'w

type_synonym ('d, 'e) outcome = "'e exn + 'd pyval"

type_synonym 'd kwargs = "(string \<times> 'd pyval) list"

type_synonym ('d, 'e, 'w) callable =
  "'d pyval list \<Rightarrow> 'd kwargs \<Rightarrow> ('d, 'w) state \<Rightarrow> ('d, 'e) outcome \<times> ('d, 'w) state"

text \<open>The module \<^verbatim>\<open>ivy\<close>: the attribute name gives the function.\<close>

type_synonym ('d, 'e, 'w) namespace = "string \<Rightarrow> ('d, 'e, 'w) callable"

subsection \<open>The method bodies\<close>

definition logit ::
  "('d, 'e, 'w) namespace \<Rightarrow> ref \<Rightarrow> 'd pyval \<Rightarrow> 'd pyval \<Rightarrow> 'd pyval \<Rightarrow>
   ('d, 'w) state \<Rightarrow> ('d, 'e) outcome \<times> ('d, 'w) state" where
  "logit ivy self eps complex_mode out s =
     ivy ''logit'' [PArray self]
       [(''eps'', eps), (''complex_mode'', complex_mode), (''out'', out)] s"

definition thresholded_relu ::
  "('d, 'e, 'w) namespace \<Rightarrow> ref \<Rightarrow> 'd pyval \<Rightarrow> 'd pyval \<Rightarrow>
   ('d, 'w) state \<Rightarrow> ('d, 'e) outcome \<times> ('d, 'w) state" where
  "thresholded_relu ivy self threshold out s =
     ivy ''thresholded_relu'' [PNative (array_data s self)]
       [(''threshold'', threshold), (''out'', out)] s"

definition prelu ::
  "('d, 'e, 'w) namespace \<Rightarrow> ref \<Rightarrow> 'd pyval \<Rightarrow> 'd pyval \<Rightarrow>
   ('d, 'w) state \<Rightarrow> ('d, 'e) outcome \<times> ('d, 'w) state" where
  "prelu ivy self slope out s =
     ivy ''prelu'' [PNative (array_data s self), slope] [(''out'', out)] s"

definition relu6 ::
  "('d, 'e, 'w) namespace \<Rightarrow> ref \<Rightarrow> 'd pyval \<Rightarrow> 'd pyval \<Rightarrow>
   ('d, 'w) state \<Rightarrow> ('d, 'e) outcome \<times> ('d, 'w) state" where
  "relu6 ivy self complex_mode out s =
     ivy ''relu6'' [PNative (array_data s self)]
       [(''complex_mode'', complex_mode), (''out'', out)] s"

definition logsigmoid ::
  "('d, 'e, 'w) namespace \<Rightarrow> ref \<Rightarrow> 'd pyval \<Rightarrow>
   ('d, 'w) state \<Rightarrow> ('d, 'e) outcome \<times> ('d, 'w) state" where
  "logsigmoid ivy self complex_mode s =
     ivy ''logsigmoid'' [PNative (array_data s self)]
       [(''complex_mode'', complex_mode)] s"

definition selu ::
  "('d, 'e, 'w) namespace \<Rightarrow> ref \<Rightarrow> 'd pyval \<Rightarrow>
   ('d, 'w) state \<Rightarrow> ('d, 'e) outcome \<times> ('d, 'w) state" where
  "selu ivy self out s =
     ivy ''selu'' [PNative (array_data s self)] [(''out'', out)] s"

definition silu ::
  "('d, 'e, 'w) namespace \<Rightarrow> ref \<Rightarrow> 'd pyval \<Rightarrow>
   ('d, 'w) state \<Rightarrow> ('d, 'e) outcome \<times> ('d, 'w) state" where
  "silu ivy self out s =
     ivy ''silu'' [PNative (array_data s self)] [(''out'', out)] s"

definition elu ::
  "('d, 'e, 'w) namespace \<Rightarrow> ref \<Rightarrow> 'd pyval \<Rightarrow> 'd pyval \<Rightarrow>
   ('d, 'w) state \<Rightarrow> ('d, 'e) outcome \<times> ('d, 'w) state" where
  "elu ivy self alpha out s =
     ivy ''elu'' [PNative (array_data s self)] [(''alpha'', alpha), (''out'', out)] s"

definition hardtanh ::
  "('d, 'e, 'w) namespace \<Rightarrow> ref \<Rightarrow> 'd pyval \<Rightarrow> 'd pyval \<Rightarrow> 'd pyval \<Rightarrow>
   ('d, 'w) state \<Rightarrow> ('d, 'e) outcome \<times> ('d, 'w) state" where
  "hardtanh ivy self max_val min_val out s =
     ivy ''hardtanh'' [PNative (array_data s self)]
       [(''min_val'', min_val), (''max_val'', max_val), (''out'', out)] s"

definition tanhshrink ::
  "('d, 'e, 'w) namespace \<Rightarrow> ref \<Rightarrow> 'd pyval \<Rightarrow>
   ('d, 'w) state \<Rightarrow> ('d, 'e) outcome \<times> ('d, 'w) state" where
  "tanhshrink ivy self out s =
     ivy ''tanhshrink'' [PNative (array_data s self)] [(''out'', out)] s"

definition celu ::
  "('d, 'e, 'w) namespace \<Rightarrow> ref \<Rightarrow> 'd pyval \<Rightarrow> 'd pyval \<Rightarrow> 'd pyval \<Rightarrow>
   ('d, 'w) state \<Rightarrow> ('d, 'e) outcome \<times> ('d, 'w) state" where
  "celu ivy self alpha complex_mode out s =
     ivy ''celu'' [PNative (array_data s self)]
       [(''alpha'', alpha), (''complex_mode'', complex_mode), (''out'', out)] s"

subsection \<open>Signatures\<close>

text \<open>
  The parameters before \<^verbatim>\<open>/\<close> are positional-only, those after \<^verbatim>\<open>*\<close> keyword-only,
  the others (only in \<^verbatim>\<open>logsigmoid\<close>, which has neither marker) positional-or-keyword.
\<close>

datatype pkind = PosOnly | PosOrKw | KwOnly

datatype 'd param = Param (pname: string) (pkind: pkind) (pdefault: "'d pyval option")

datatype activation =
    Logit | Thresholded_relu | Prelu | Relu6 | Logsigmoid | Selu | Silu | Elu
  | Hardtanh | Tanhshrink | Celu

fun method_name :: "activation \<Rightarrow> string" where
  "method_name Logit = ''logit''"
| "method_name Thresholded_relu = ''thresholded_relu''"
| "method_name Prelu = ''prelu''"
| "method_name Relu6 = ''relu6''"
| "method_name Logsigmoid = ''logsigmoid''"
| "method_name Selu = ''selu''"
| "method_name Silu = ''silu''"
| "method_name Elu = ''elu''"
| "method_name Hardtanh = ''hardtanh''"
| "method_name Tanhshrink = ''tanhshrink''"
| "method_name Celu = ''celu''"

fun signature :: "activation \<Rightarrow> 'd param list" where
  "signature Logit =
     [Param ''self'' PosOnly None,
      Param ''eps'' KwOnly (Some PNone),
      Param ''complex_mode'' KwOnly (Some (PStr ''jax'')),
      Param ''out'' KwOnly (Some PNone)]"
| "signature Thresholded_relu =
     [Param ''self'' PosOnly None,
      Param ''threshold'' KwOnly (Some (PInt 0)),
      Param ''out'' KwOnly (Some PNone)]"
| "signature Prelu =
     [Param ''self'' PosOnly None,
      Param ''slope'' PosOnly None,
      Param ''out'' KwOnly (Some PNone)]"
| "signature Relu6 =
     [Param ''self'' PosOnly None,
      Param ''complex_mode'' KwOnly (Some (PStr ''jax'')),
      Param ''out'' KwOnly (Some PNone)]"
| "signature Logsigmoid =
     [Param ''self'' PosOrKw None,
      Param ''complex_mode'' PosOrKw (Some (PStr ''jax''))]"
| "signature Selu =
     [Param ''self'' PosOnly None,
      Param ''out'' KwOnly (Some PNone)]"
| "signature Silu =
     [Param ''self'' PosOnly None,
      Param ''out'' KwOnly (Some PNone)]"
| "signature Elu =
     [Param ''self'' PosOnly None,
      Param ''alpha'' KwOnly (Some (PFloat 1.0)),
      Param ''out'' KwOnly (Some PNone)]"
| "signature Hardtanh =
     [Param ''self'' PosOnly None,
      Param ''max_val'' KwOnly (Some (PInt 1)),
      Param ''min_val'' KwOnly (Some (PInt (- 1))),
      Param ''out'' KwOnly (Some PNone)]"
| "signature Tanhshrink =
     [Param ''self'' PosOnly None,
      Param ''out'' KwOnly (Some PNone)]"
| "signature Celu =
     [Param ''self'' PosOnly None,
      Param ''alpha'' KwOnly (Some (PFloat 1.0)),
      Param ''complex_mode'' KwOnly (Some (PStr ''jax'')),
      Param ''out'' KwOnly (Some PNone)]"

subsection \<open>Binding the arguments of a call\<close>

text \<open>
  Python binds a call to a signature without \<^verbatim>\<open>*args\<close> and \<^verbatim>\<open>**kwargs\<close> in three steps,
  and raises \<^verbatim>\<open>TypeError\<close> when one fails:
  \<^item> the positional arguments fill the positional-only and positional-or-keyword
    parameters from the left; one more than there are such parameters is an error;
  \<^item> each keyword argument must name a parameter that is not positional-only and has
    no value yet;
  \<^item> a parameter still without a value takes its default; without a default it is
    missing, an error.
  The result is the frame's locals, in the order of the parameters.
\<close>

fun bind_positional :: "'d param list \<Rightarrow> 'd pyval list \<Rightarrow> 'e exn + 'd kwargs" where
  "bind_positional ps [] = Inr []"
| "bind_positional [] (a # as) = Inl TypeError"
| "bind_positional (p # ps) (a # as) =
     (if pkind p = KwOnly then Inl TypeError
      else case bind_positional ps as of
             Inl e \<Rightarrow> Inl e
           | Inr env \<Rightarrow> Inr ((pname p, a) # env))"

fun bind_keywords :: "'d param list \<Rightarrow> 'd kwargs \<Rightarrow> 'd kwargs \<Rightarrow> 'e exn + 'd kwargs" where
  "bind_keywords ps env [] = Inr env"
| "bind_keywords ps env ((k, v) # kws) =
     (if k \<in> set (map pname (filter (\<lambda>p. pkind p \<noteq> PosOnly) ps)) \<and> map_of env k = None
      then bind_keywords ps (env @ [(k, v)]) kws
      else Inl TypeError)"

fun fill_defaults :: "'d param list \<Rightarrow> 'd kwargs \<Rightarrow> 'e exn + 'd pyval list" where
  "fill_defaults [] env = Inr []"
| "fill_defaults (p # ps) env =
     (case (case map_of env (pname p) of Some v \<Rightarrow> Some v | None \<Rightarrow> pdefault p) of
        None \<Rightarrow> Inl TypeError
      | Some v \<Rightarrow> (case fill_defaults ps env of
                     Inl e \<Rightarrow> Inl e
                   | Inr vs \<Rightarrow> Inr (v # vs)))"

definition bind_args :: "'d param list \<Rightarrow> 'd pyval list \<Rightarrow> 'd kwargs \<Rightarrow> 'e exn + 'd pyval list" where
  "bind_args ps args kwargs =
     (case bind_positional ps args of
        Inl e \<Rightarrow> Inl e
      | Inr env \<Rightarrow> (case bind_keywords ps env kwargs of
                      Inl e \<Rightarrow> Inl e
                    | Inr env' \<Rightarrow> fill_defaults ps env'))"

subsection \<open>Calling a method\<close>

text \<open>
  \<open>enter\<close> runs the body of a method on the locals that follow \<^verbatim>\<open>self\<close>.
  \<open>call_method ivy N self args kwargs\<close> is \<^verbatim>\<open>handle.N(*args, **kwargs)\<close>: the
  receiver goes in front of the positional arguments; a call that does not bind raises
  before the body is entered, and leaves the state as it was.
\<close>

fun enter ::
  "activation \<Rightarrow> ('d, 'e, 'w) namespace \<Rightarrow> ref \<Rightarrow> 'd pyval list \<Rightarrow>
   ('d, 'w) state \<Rightarrow> ('d, 'e) outcome \<times> ('d, 'w) state" where
  "enter Logit ivy self [eps, complex_mode, out] = logit ivy self eps complex_mode out"
| "enter Thresholded_relu ivy self [threshold, out] = thresholded_relu ivy self threshold out"
| "enter Prelu ivy self [slope, out] = prelu ivy self slope out"
| "enter Relu6 ivy self [complex_mode, out] = relu6 ivy self complex_mode out"
| "enter Logsigmoid ivy self [complex_mode] = logsigmoid ivy self complex_mode"
| "enter Selu ivy self [out] = selu ivy self out"
| "enter Silu ivy self [out] = silu ivy self out"
| "enter Elu ivy self [alpha, out] = elu ivy self alpha out"
| "enter Hardtanh ivy self [max_val, min_val, out] = hardtanh ivy self max_val min_val out"
| "enter Tanhshrink ivy self [out] = tanhshrink ivy self out"
| "enter Celu ivy self [alpha, complex_mode, out] = celu ivy self alpha complex_mode out"
| "enter _ ivy self _ = (\<lambda>s. (Inl SystemError, s))"

text \<open>\<open>kwarg kwargs k d\<close> is \<^verbatim>\<open>kwargs.get(k, d)\<close>.\<close>

definition kwarg :: "'d kwargs \<Rightarrow> string \<Rightarrow> 'd pyval \<Rightarrow> 'd pyval" where
  "kwarg kwargs k d = (case map_of kwargs k of Some v \<Rightarrow> v | None \<Rightarrow> d)"

definition call_method ::
  "('d, 'e, 'w) namespace \<Rightarrow> activation \<Rightarrow> ref \<Rightarrow> 'd pyval list \<Rightarrow> 'd kwargs \<Rightarrow>
   ('d, 'w) state \<Rightarrow> ('d, 'e) outcome \<times> ('d, 'w) state" where
  "call_method ivy N self args kwargs s =
     (case bind_args (signature N) (PArray self # args) kwargs of
        Inl e \<Rightarrow> (Inl e, s)
      | Inr locals \<Rightarrow> enter N ivy self (tl locals) s)"

subsection \<open>Recording the backend's calls\<close>

text \<open>
  To count the calls a method makes, the namespace is wrapped: \<open>traced ivy\<close> behaves as
  \<open>ivy\<close> on the state without the log and appends each call to the log.
\<close>

datatype 'd call = Call (call_fn: string) (call_args: "'d pyval list") (call_kwargs: "'d kwargs")

definition with_log :: "('d, 'w) state \<Rightarrow> 'd call list \<Rightarrow> ('d, 'w \<times> 'd call list) state" where
  "with_log s l = \<lparr>array_data = array_data s, world = (world s, l)\<rparr>"

definition without_log :: "('d, 'w \<times> 'd call list) state \<Rightarrow> ('d, 'w) state" where
  "without_log s = \<lparr>array_data = array_data s, world = fst (world s)\<rparr>"

definition traced :: "('d, 'e, 'w) namespace \<Rightarrow> ('d, 'e, 'w \<times> 'd call list) namespace" where
  "traced ivy name args kwargs s =
     (case ivy name args kwargs (without_log s) of
        (r, s') \<Rightarrow> (r, with_log s' (snd (world s) @ [Call name args kwargs])))"

text \<open>
  The calls \<^verbatim>\<open>handle.N(*args, **kwargs)\<close> makes to the backend, in order, when the
  namespace is \<open>ivy\<close> and the state is \<open>s\<close>.
\<close>

definition invocations ::
  "('d, 'e, 'w) namespace \<Rightarrow> activation \<Rightarrow> ref \<Rightarrow> 'd pyval list \<Rightarrow> 'd kwargs \<Rightarrow>
   ('d, 'w) state \<Rightarrow> 'd call list" where
  "invocations ivy N self args kwargs s =
     snd (world (snd (call_method (traced ivy) N self args kwargs (with_log s []))))"

subsection \<open>A stub backend and a store, for the examples\<close>

text \<open>
  \<open>stub r\<close> is a namespace all of whose functions return \<open>r\<close> and change nothing;
  \<open>raising e\<close> is one all of whose functions raise \<open>e\<close>. In \<open>store d\<close> every
  array wraps the buffer \<open>d\<close>; in \<open>store_but d r d'\<close> array \<open>r\<close> wraps \<open>d'\<close> instead.
\<close>

definition stub :: "'d pyval \<Rightarrow> ('d, 'e, 'w) namespace" where
  "stub r name args kwargs s = (Inr r, s)"

definition raising :: "'e \<Rightarrow> ('d, 'e, 'w) namespace" where
  "raising e name args kwargs s = (Inl (Raised e), s)"

definition store :: "'d \<Rightarrow> ('d, unit) state" where
  "store d = \<lparr>array_data = (\<lambda>r. d), world = ()\<rparr>"

definition store_but :: "'d \<Rightarrow> ref \<Rightarrow> 'd \<Rightarrow> ('d, unit) state" where
  "store_but d r d' = \<lparr>array_data = (\<lambda>x. if x = r then d' else d), world = ()\<rparr>"

subsection \<open>The defaults the specification documents\<close>

text \<open>
  This table follows the words of the specification, not the source: the extra
  parameters and defaults of its section 4.1, and \<^verbatim>\<open>out=None\<close> for every method but
  \<^verbatim>\<open>logsigmoid\<close>. The theorems below compare it with what the signatures of the source
  make the backend receive.
\<close>

fun spec_defaults :: "activation \<Rightarrow> 'd kwargs" where
  "spec_defaults Logit =
     [(''eps'', PNone), (''complex_mode'', PStr ''jax''), (''out'', PNone)]"
| "spec_defaults Thresholded_relu = [(''threshold'', PInt 0), (''out'', PNone)]"
| "spec_defaults Prelu = [(''out'', PNone)]"
| "spec_defaults Relu6 = [(''complex_mode'', PStr ''jax''), (''out'', PNone)]"
| "spec_defaults Logsigmoid = [(''complex_mode'', PStr ''jax'')]"
| "spec_defaults Selu = [(''out'', PNone)]"
| "spec_defaults Silu = [(''out'', PNone)]"
| "spec_defaults Elu = [(''alpha'', PFloat 1.0), (''out'', PNone)]"
| "spec_defaults Hardtanh =
     [(''max_val'', PInt 1), (''min_val'', PInt (- 1)), (''out'', PNone)]"
| "spec_defaults Tanhshrink = [(''out'', PNone)]"
| "spec_defaults Celu =
     [(''alpha'', PFloat 1.0), (''complex_mode'', PStr ''jax''), (''out'', PNone)]"

section \<open>The binding of arguments\<close>

text \<open>
  What a successful binding yields, and when binding succeeds: first for any signature,
  then in closed form for each of the eleven.
\<close>

lemma bind_keywords_Inr:
  "(bind_keywords ps env kws :: 'e exn + 'd kwargs) = Inr env' \<Longrightarrow>
   env' = env @ kws \<and> distinct (map fst kws) \<and>
   (\<forall>k \<in> fst ` set kws. k \<in> set (map pname (filter (\<lambda>p. pkind p \<noteq> PosOnly) ps)) \<and> map_of env k = None)"
proof (induction kws arbitrary: env)
  case Nil
  then show ?case by simp
next
  case (Cons kv kws)
  obtain k v where kv: "kv = (k, v)" by (cases kv)
  from Cons.prems kv have ok: "k \<in> set (map pname (filter (\<lambda>p. pkind p \<noteq> PosOnly) ps))" "map_of env k = None"
    and rec: "(bind_keywords ps (env @ [(k, v)]) kws :: 'e exn + 'd kwargs) = Inr env'"
    by (auto split: if_splits)
  from Cons.IH [OF rec] have ih: "env' = (env @ [(k, v)]) @ kws" "distinct (map fst kws)"
    "\<forall>k' \<in> fst ` set kws. k' \<in> set (map pname (filter (\<lambda>p. pkind p \<noteq> PosOnly) ps)) \<and> map_of (env @ [(k, v)]) k' = None"
    by auto
  show ?case using ok ih kv by (auto simp: map_add_def split: option.splits if_splits)
qed

lemma bind_positional_Inr:
  "(bind_positional ps args :: 'e exn + 'd kwargs) = Inr env \<Longrightarrow>
   env = zip (map pname ps) args \<and> length args \<le> length ps \<and>
   (\<forall>p \<in> set (take (length args) ps). pkind p \<noteq> KwOnly)"
proof (induction ps args arbitrary: env rule: bind_positional.induct)
  case (1 ps)
  then show ?case by simp
next
  case (2 a as)
  then show ?case by simp
next
  case (3 p ps a as)
  then show ?case by (auto split: if_splits sum.splits)
qed

lemma fill_defaults_Inr:
  "(fill_defaults ps env :: 'e exn + 'd pyval list) = Inr vs \<Longrightarrow>
   map Some vs = map (\<lambda>p. case map_of env (pname p) of Some v \<Rightarrow> Some v | None \<Rightarrow> pdefault p) ps"
  by (induction ps arbitrary: vs) (auto split: option.splits sum.splits)

lemma bind_args_Inr:
  assumes "(bind_args ps args kwargs :: 'e exn + 'd pyval list) = Inr locals"
  shows "map Some locals =
           map (\<lambda>p. case map_of (zip (map pname ps) args @ kwargs) (pname p) of
                       Some v \<Rightarrow> Some v | None \<Rightarrow> pdefault p) ps"
    and "length args \<le> length ps"
    and "\<forall>p \<in> set (take (length args) ps). pkind p \<noteq> KwOnly"
    and "distinct (map fst kwargs)"
    and "\<forall>k \<in> fst ` set kwargs. k \<in> set (map pname (filter (\<lambda>p. pkind p \<noteq> PosOnly) ps)) \<and>
           map_of (zip (map pname ps) args) k = None"
proof -
  from assms obtain env where
    p: "(bind_positional ps args :: 'e exn + 'd kwargs) = Inr env" and
    r: "(case (bind_keywords ps env kwargs :: 'e exn + 'd kwargs) of Inl e \<Rightarrow> Inl e | Inr env' \<Rightarrow> (fill_defaults ps env' :: 'e exn + 'd pyval list)) = Inr locals"
    by (cases "bind_positional ps args :: 'e exn + 'd kwargs") (auto simp: bind_args_def)
  from r obtain env' where
    k: "(bind_keywords ps env kwargs :: 'e exn + 'd kwargs) = Inr env'" and
    f: "(fill_defaults ps env' :: 'e exn + 'd pyval list) = Inr locals"
    by (cases "bind_keywords ps env kwargs :: 'e exn + 'd kwargs") auto
  note P = bind_positional_Inr [OF p] and K = bind_keywords_Inr [OF k]
  show "map Some locals =
           map (\<lambda>p. case map_of (zip (map pname ps) args @ kwargs) (pname p) of
                       Some v \<Rightarrow> Some v | None \<Rightarrow> pdefault p) ps"
    using fill_defaults_Inr [OF f] P K by simp
  show "length args \<le> length ps" using P by simp
  show "\<forall>p \<in> set (take (length args) ps). pkind p \<noteq> KwOnly" using P by simp
  show "distinct (map fst kwargs)" using K by simp
  show "\<forall>k \<in> fst ` set kwargs. k \<in> set (map pname (filter (\<lambda>p. pkind p \<noteq> PosOnly) ps)) \<and>
           map_of (zip (map pname ps) args) k = None"
    using P K by simp
qed



lemma bind_keywords_eq:
  "(bind_keywords ps env kws :: 'e exn + 'd kwargs) =
     (if distinct (map fst kws) \<and>
         (\<forall>k \<in> fst ` set kws. k \<in> set (map pname (filter (\<lambda>p. pkind p \<noteq> PosOnly) ps)) \<and> map_of env k = None)
      then Inr (env @ kws) else Inl TypeError)"
proof (induction kws arbitrary: env)
  case Nil
  then show ?case by simp
next
  case (Cons kv kws)
  obtain k v where kv: "kv = (k, v)" by (cases kv)
  show ?case unfolding kv
    by (simp add: Cons.IH map_add_def split: option.splits) (auto simp: map_of_eq_None_iff)
qed

lemma bind_Logit:
  "(bind_args (signature Logit) (PArray self # args) kwargs :: 'e exn + 'd pyval list) =
     (if args = [] \<and> distinct (map fst kwargs) \<and>
         fst ` set kwargs \<subseteq> {''eps'', ''complex_mode'', ''out''}
      then Inr [PArray self, kwarg kwargs ''eps'' PNone,
                kwarg kwargs ''complex_mode'' (PStr ''jax''), kwarg kwargs ''out'' PNone]
      else Inl TypeError)"
  by (cases args) (auto simp: bind_args_def bind_keywords_eq kwarg_def split: option.splits)


lemma bind_Thresholded_relu:
  "(bind_args (signature Thresholded_relu) (PArray self # args) kwargs :: 'e exn + 'd pyval list) =
     (if args = [] \<and> distinct (map fst kwargs) \<and> fst ` set kwargs \<subseteq> {''threshold'', ''out''}
      then Inr [PArray self, kwarg kwargs ''threshold'' (PInt 0), kwarg kwargs ''out'' PNone]
      else Inl TypeError)"
  by (cases args) (auto simp: bind_args_def bind_keywords_eq kwarg_def split: option.splits)

lemma bind_Relu6:
  "(bind_args (signature Relu6) (PArray self # args) kwargs :: 'e exn + 'd pyval list) =
     (if args = [] \<and> distinct (map fst kwargs) \<and> fst ` set kwargs \<subseteq> {''complex_mode'', ''out''}
      then Inr [PArray self, kwarg kwargs ''complex_mode'' (PStr ''jax''), kwarg kwargs ''out'' PNone]
      else Inl TypeError)"
  by (cases args) (auto simp: bind_args_def bind_keywords_eq kwarg_def split: option.splits)

lemma bind_Selu:
  "(bind_args (signature Selu) (PArray self # args) kwargs :: 'e exn + 'd pyval list) =
     (if args = [] \<and> distinct (map fst kwargs) \<and> fst ` set kwargs \<subseteq> {''out''}
      then Inr [PArray self, kwarg kwargs ''out'' PNone]
      else Inl TypeError)"
  by (cases args) (auto simp: bind_args_def bind_keywords_eq kwarg_def split: option.splits)

lemma bind_Silu:
  "(bind_args (signature Silu) (PArray self # args) kwargs :: 'e exn + 'd pyval list) =
     (if args = [] \<and> distinct (map fst kwargs) \<and> fst ` set kwargs \<subseteq> {''out''}
      then Inr [PArray self, kwarg kwargs ''out'' PNone]
      else Inl TypeError)"
  by (cases args) (auto simp: bind_args_def bind_keywords_eq kwarg_def split: option.splits)

lemma bind_Elu:
  "(bind_args (signature Elu) (PArray self # args) kwargs :: 'e exn + 'd pyval list) =
     (if args = [] \<and> distinct (map fst kwargs) \<and> fst ` set kwargs \<subseteq> {''alpha'', ''out''}
      then Inr [PArray self, kwarg kwargs ''alpha'' (PFloat 1.0), kwarg kwargs ''out'' PNone]
      else Inl TypeError)"
  by (cases args) (auto simp: bind_args_def bind_keywords_eq kwarg_def split: option.splits)

lemma bind_Hardtanh:
  "(bind_args (signature Hardtanh) (PArray self # args) kwargs :: 'e exn + 'd pyval list) =
     (if args = [] \<and> distinct (map fst kwargs) \<and> fst ` set kwargs \<subseteq> {''max_val'', ''min_val'', ''out''}
      then Inr [PArray self, kwarg kwargs ''max_val'' (PInt 1), kwarg kwargs ''min_val'' (PInt (- 1)), kwarg kwargs ''out'' PNone]
      else Inl TypeError)"
  by (cases args) (auto simp: bind_args_def bind_keywords_eq kwarg_def split: option.splits)

lemma bind_Tanhshrink:
  "(bind_args (signature Tanhshrink) (PArray self # args) kwargs :: 'e exn + 'd pyval list) =
     (if args = [] \<and> distinct (map fst kwargs) \<and> fst ` set kwargs \<subseteq> {''out''}
      then Inr [PArray self, kwarg kwargs ''out'' PNone]
      else Inl TypeError)"
  by (cases args) (auto simp: bind_args_def bind_keywords_eq kwarg_def split: option.splits)

lemma bind_Celu:
  "(bind_args (signature Celu) (PArray self # args) kwargs :: 'e exn + 'd pyval list) =
     (if args = [] \<and> distinct (map fst kwargs) \<and> fst ` set kwargs \<subseteq> {''alpha'', ''complex_mode'', ''out''}
      then Inr [PArray self, kwarg kwargs ''alpha'' (PFloat 1.0), kwarg kwargs ''complex_mode'' (PStr ''jax''), kwarg kwargs ''out'' PNone]
      else Inl TypeError)"
  by (cases args) (auto simp: bind_args_def bind_keywords_eq kwarg_def split: option.splits)

lemma bind_Prelu:
  "(bind_args (signature Prelu) (PArray self # args) kwargs :: 'e exn + 'd pyval list) =
     (if length args = 1 \<and> distinct (map fst kwargs) \<and> fst ` set kwargs \<subseteq> {''out''}
      then Inr [PArray self, hd args, kwarg kwargs ''out'' PNone]
      else Inl TypeError)"
proof (cases args)
  case Nil
  then show ?thesis
    by (auto simp: bind_args_def bind_keywords_eq kwarg_def split: option.splits) force+
next
  case (Cons a as)
  then show ?thesis
    by (cases as) (auto simp: bind_args_def bind_keywords_eq kwarg_def split: option.splits)
qed

lemma bind_Logsigmoid:
  "(bind_args (signature Logsigmoid) (PArray self # args) kwargs :: 'e exn + 'd pyval list) =
     (if args = [] \<and> distinct (map fst kwargs) \<and> fst ` set kwargs \<subseteq> {''complex_mode''}
      then Inr [PArray self, kwarg kwargs ''complex_mode'' (PStr ''jax'')]
      else if length args = 1 \<and> kwargs = []
      then Inr [PArray self, hd args]
      else Inl TypeError)"
proof (cases args)
  case Nil
  then show ?thesis
    by (auto simp: bind_args_def bind_keywords_eq kwarg_def split: option.splits)
next
  case (Cons a as)
  then show ?thesis
    by (cases as; cases kwargs) (auto simp: bind_args_def bind_keywords_eq kwarg_def split: option.splits)
qed

section \<open>What a method call does\<close>

text \<open>
  Each method call in closed form: when the call binds, the one backend call its body
  makes; otherwise \<open>TypeError\<close> and the state as it was. In particular the clause of
  \<open>enter\<close> that yields \<open>SystemError\<close> is never reached from \<open>call_method\<close>.
\<close>

lemma call_Logit:
  "call_method ivy Logit self args kwargs s =
     (if args = [] \<and> distinct (map fst kwargs) \<and> fst ` set kwargs \<subseteq> {''eps'', ''complex_mode'', ''out''}
      then ivy ''logit'' [PArray self]
         [(''eps'', kwarg kwargs ''eps'' PNone),
          (''complex_mode'', kwarg kwargs ''complex_mode'' (PStr ''jax'')),
          (''out'', kwarg kwargs ''out'' PNone)] s
      else (Inl TypeError, s))"
  by (simp add: call_method_def bind_Logit logit_def del: signature.simps)

lemma call_Thresholded_relu:
  "call_method ivy Thresholded_relu self args kwargs s =
     (if args = [] \<and> distinct (map fst kwargs) \<and> fst ` set kwargs \<subseteq> {''threshold'', ''out''}
      then ivy ''thresholded_relu'' [PNative (array_data s self)]
         [(''threshold'', kwarg kwargs ''threshold'' (PInt 0)),
          (''out'', kwarg kwargs ''out'' PNone)] s
      else (Inl TypeError, s))"
  by (simp add: call_method_def bind_Thresholded_relu thresholded_relu_def del: signature.simps)

lemma call_Prelu:
  "call_method ivy Prelu self args kwargs s =
     (if length args = 1 \<and> distinct (map fst kwargs) \<and> fst ` set kwargs \<subseteq> {''out''}
      then ivy ''prelu'' [PNative (array_data s self), hd args]
         [(''out'', kwarg kwargs ''out'' PNone)] s
      else (Inl TypeError, s))"
  by (simp add: call_method_def bind_Prelu prelu_def del: signature.simps)

lemma call_Relu6:
  "call_method ivy Relu6 self args kwargs s =
     (if args = [] \<and> distinct (map fst kwargs) \<and> fst ` set kwargs \<subseteq> {''complex_mode'', ''out''}
      then ivy ''relu6'' [PNative (array_data s self)]
         [(''complex_mode'', kwarg kwargs ''complex_mode'' (PStr ''jax'')),
          (''out'', kwarg kwargs ''out'' PNone)] s
      else (Inl TypeError, s))"
  by (simp add: call_method_def bind_Relu6 relu6_def del: signature.simps)

lemma call_Selu:
  "call_method ivy Selu self args kwargs s =
     (if args = [] \<and> distinct (map fst kwargs) \<and> fst ` set kwargs \<subseteq> {''out''}
      then ivy ''selu'' [PNative (array_data s self)] [(''out'', kwarg kwargs ''out'' PNone)] s
      else (Inl TypeError, s))"
  by (simp add: call_method_def bind_Selu selu_def del: signature.simps)

lemma call_Silu:
  "call_method ivy Silu self args kwargs s =
     (if args = [] \<and> distinct (map fst kwargs) \<and> fst ` set kwargs \<subseteq> {''out''}
      then ivy ''silu'' [PNative (array_data s self)] [(''out'', kwarg kwargs ''out'' PNone)] s
      else (Inl TypeError, s))"
  by (simp add: call_method_def bind_Silu silu_def del: signature.simps)

lemma call_Elu:
  "call_method ivy Elu self args kwargs s =
     (if args = [] \<and> distinct (map fst kwargs) \<and> fst ` set kwargs \<subseteq> {''alpha'', ''out''}
      then ivy ''elu'' [PNative (array_data s self)]
         [(''alpha'', kwarg kwargs ''alpha'' (PFloat 1.0)),
          (''out'', kwarg kwargs ''out'' PNone)] s
      else (Inl TypeError, s))"
  by (simp add: call_method_def bind_Elu elu_def del: signature.simps)

lemma call_Hardtanh:
  "call_method ivy Hardtanh self args kwargs s =
     (if args = [] \<and> distinct (map fst kwargs) \<and> fst ` set kwargs \<subseteq> {''max_val'', ''min_val'', ''out''}
      then ivy ''hardtanh'' [PNative (array_data s self)]
         [(''min_val'', kwarg kwargs ''min_val'' (PInt (- 1))),
          (''max_val'', kwarg kwargs ''max_val'' (PInt 1)),
          (''out'', kwarg kwargs ''out'' PNone)] s
      else (Inl TypeError, s))"
  by (simp add: call_method_def bind_Hardtanh hardtanh_def del: signature.simps)

lemma call_Tanhshrink:
  "call_method ivy Tanhshrink self args kwargs s =
     (if args = [] \<and> distinct (map fst kwargs) \<and> fst ` set kwargs \<subseteq> {''out''}
      then ivy ''tanhshrink'' [PNative (array_data s self)] [(''out'', kwarg kwargs ''out'' PNone)] s
      else (Inl TypeError, s))"
  by (simp add: call_method_def bind_Tanhshrink tanhshrink_def del: signature.simps)

lemma call_Celu:
  "call_method ivy Celu self args kwargs s =
     (if args = [] \<and> distinct (map fst kwargs) \<and> fst ` set kwargs \<subseteq> {''alpha'', ''complex_mode'', ''out''}
      then ivy ''celu'' [PNative (array_data s self)]
         [(''alpha'', kwarg kwargs ''alpha'' (PFloat 1.0)),
          (''complex_mode'', kwarg kwargs ''complex_mode'' (PStr ''jax'')),
          (''out'', kwarg kwargs ''out'' PNone)] s
      else (Inl TypeError, s))"
  by (simp add: call_method_def bind_Celu celu_def del: signature.simps)

lemma call_Logsigmoid:
  "call_method ivy Logsigmoid self args kwargs s =
     (if args = [] \<and> distinct (map fst kwargs) \<and> fst ` set kwargs \<subseteq> {''complex_mode''}
      then ivy ''logsigmoid'' [PNative (array_data s self)]
             [(''complex_mode'', kwarg kwargs ''complex_mode'' (PStr ''jax''))] s
      else if length args = 1 \<and> kwargs = []
      then ivy ''logsigmoid'' [PNative (array_data s self)] [(''complex_mode'', hd args)] s
      else (Inl TypeError, s))"
  by (simp add: call_method_def bind_Logsigmoid logsigmoid_def del: signature.simps)

lemmas call_simps =
  call_Logit call_Thresholded_relu call_Prelu call_Relu6 call_Logsigmoid call_Selu
  call_Silu call_Elu call_Hardtanh call_Tanhshrink call_Celu

lemmas bind_simps =
  bind_Logit bind_Thresholded_relu bind_Prelu bind_Relu6 bind_Logsigmoid bind_Selu
  bind_Silu bind_Elu bind_Hardtanh bind_Tanhshrink bind_Celu

lemma without_with_log: "without_log (with_log s l) = s"
  by (simp add: with_log_def without_log_def)

lemma array_data_with_log: "array_data (with_log s l) = array_data s"
  by (simp add: with_log_def)

lemma world_with_log: "world (with_log s l) = (world s, l)"
  by (simp add: with_log_def)

lemma traced_with_log:
  "traced ivy name args kwargs (with_log s l) =
     (case ivy name args kwargs s of
        (r, s') \<Rightarrow> (r, with_log s' (l @ [Call name args kwargs])))"
  by (simp add: traced_def without_with_log world_with_log)

text \<open>
  The calls that bind, as a case analysis: one case for each method, and two for
  \<^verbatim>\<open>logsigmoid\<close>, whose \<^verbatim>\<open>complex_mode\<close> may come by keyword or by position.
\<close>

lemma length_one: "length xs = Suc 0 \<longleftrightarrow> (\<exists>x. xs = [x])"
  by (cases xs) auto

lemma accepted_cases [consumes 1, case_names Logit Thresholded_relu Prelu Relu6 Logsigmoid
    Logsigmoid_positional Selu Silu Elu Hardtanh Tanhshrink Celu]:
  assumes "(bind_args (signature N) (PArray self # args) kwargs :: 'e exn + 'd pyval list) = Inr locals"
  obtains
    (Logit) "N = Logit" "args = []" "distinct (map fst kwargs)"
      "fst ` set kwargs \<subseteq> {''eps'', ''complex_mode'', ''out''}"
  | (Thresholded_relu) "N = Thresholded_relu" "args = []" "distinct (map fst kwargs)"
      "fst ` set kwargs \<subseteq> {''threshold'', ''out''}"
  | (Prelu) slope where "N = Prelu" "args = [slope]" "distinct (map fst kwargs)"
      "fst ` set kwargs \<subseteq> {''out''}"
  | (Relu6) "N = Relu6" "args = []" "distinct (map fst kwargs)"
      "fst ` set kwargs \<subseteq> {''complex_mode'', ''out''}"
  | (Logsigmoid) "N = Logsigmoid" "args = []" "distinct (map fst kwargs)"
      "fst ` set kwargs \<subseteq> {''complex_mode''}"
  | (Logsigmoid_positional) complex_mode where "N = Logsigmoid" "args = [complex_mode]" "kwargs = []"
  | (Selu) "N = Selu" "args = []" "distinct (map fst kwargs)"
      "fst ` set kwargs \<subseteq> {''out''}"
  | (Silu) "N = Silu" "args = []" "distinct (map fst kwargs)"
      "fst ` set kwargs \<subseteq> {''out''}"
  | (Elu) "N = Elu" "args = []" "distinct (map fst kwargs)"
      "fst ` set kwargs \<subseteq> {''alpha'', ''out''}"
  | (Hardtanh) "N = Hardtanh" "args = []" "distinct (map fst kwargs)"
      "fst ` set kwargs \<subseteq> {''max_val'', ''min_val'', ''out''}"
  | (Tanhshrink) "N = Tanhshrink" "args = []" "distinct (map fst kwargs)"
      "fst ` set kwargs \<subseteq> {''out''}"
  | (Celu) "N = Celu" "args = []" "distinct (map fst kwargs)"
      "fst ` set kwargs \<subseteq> {''alpha'', ''complex_mode'', ''out''}"
  using assms
  by (cases N) (auto simp: bind_simps length_one simp del: signature.simps split: if_splits)

text \<open>Keyword arguments of the caller reach the frame as they are.\<close>

lemma kwarg_mem:
  "distinct (map fst kwargs) \<Longrightarrow> (k, v) \<in> set kwargs \<Longrightarrow> kwarg kwargs k d = v"
  by (simp add: kwarg_def)

lemma kwargs_forwarded:
  assumes "distinct (map fst kwargs)" and "fst ` set kwargs \<subseteq> fst ` set kds"
  shows "set kwargs \<subseteq> set (map (\<lambda>(k, d). (k, kwarg kwargs k d)) kds)"
proof
  fix kv assume kv: "kv \<in> set kwargs"
  obtain k v where [simp]: "kv = (k, v)" by (cases kv)
  from kv assms(2) obtain d where d: "(k, d) \<in> set kds" by force
  have "kwarg kwargs k d = v" using kwarg_mem [OF assms(1)] kv by simp
  with d show "kv \<in> set (map (\<lambda>(k, d). (k, kwarg kwargs k d)) kds)" by force
qed

text \<open>A call that does not bind raises \<open>TypeError\<close> and reaches no backend function.\<close>

lemma log_of_traced: "snd (world (snd (case p of (r, s') \<Rightarrow> (r, with_log s' l)))) = l"
  by (cases p) (simp add: world_with_log)

lemma bind_args_Inl:
  "(bind_args (signature N) (PArray self # args) kwargs :: 'e exn + 'd pyval list) = Inl err \<Longrightarrow>
   err = TypeError"
  by (cases N) (simp_all add: bind_simps del: signature.simps split: if_splits)

lemma rejected_call:
  assumes "(bind_args (signature N) (PArray self # args) kwargs :: 'e exn + 'd pyval list) = Inl err"
  shows "call_method (ivy :: ('d, 'e, 'w) namespace) N self args kwargs s = (Inl TypeError, s)"
    and "invocations (ivy :: ('d, 'e, 'w) namespace) N self args kwargs s = []"
  using assms bind_args_Inl [OF assms]
  by (simp_all add: call_method_def invocations_def world_with_log del: signature.simps)

text \<open>
  A call that binds makes one backend call, to the function of the method's name; its
  first operand is the wrapper in \<^verbatim>\<open>logit\<close> and the raw data in the other ten.
\<close>

lemma accepted_call:
  assumes "(bind_args (signature N) (PArray self # args) kwargs :: 'e exn + 'd pyval list) = Inr locals"
  shows "\<exists>extra kw.
           call_method (ivy :: ('d, 'e, 'w) namespace) N self args kwargs s =
             ivy (method_name N)
               ((if N = Logit then PArray self else PNative (array_data s self)) # extra) kw s \<and>
           invocations ivy N self args kwargs s =
             [Call (method_name N)
                ((if N = Logit then PArray self else PNative (array_data s self)) # extra) kw]"
  using assms
  by (cases rule: accepted_cases)
     (simp_all add: invocations_def call_simps traced_with_log array_data_with_log log_of_traced)

lemma kwarg_absent: "map_of kwargs k = None \<Longrightarrow> kwarg kwargs k d = d"
  by (simp add: kwarg_def)

section \<open>The claims\<close>

subsection \<open>C1: every method is one call of the backend function of its name\<close>

text \<open>
  C1. A call of method \<open>N\<close> that binds to its signature calls the backend function
  named \<open>N\<close> exactly once. The first positional operand is the receiver's raw data or
  the receiver itself; the other positional operands are as many as the signature has
  positional-only parameters after \<^verbatim>\<open>self\<close>; the keywords are exactly the names of the
  other declared parameters, each once. Every keyword argument of the caller is among
  them with its value, and every positional argument of the caller is among the
  operands. The method returns what the backend function returns and leaves the state
  the backend function leaves.
\<close>

theorem each_method_calls_its_backend_function_once:
  assumes "(bind_args (signature N) (PArray self # args) kwargs :: 'e exn + 'd pyval list) = Inr locals"
  shows "\<exists>operand extra kw.
           (operand = PArray self \<or> operand = PNative (array_data s self)) \<and>
           call_method ivy N self args kwargs s = ivy (method_name N) (operand # extra) kw s \<and>
           call_method (traced ivy) N self args kwargs (with_log s []) =
             (case ivy (method_name N) (operand # extra) kw s of
                (r, s') \<Rightarrow> (r, with_log s' [Call (method_name N) (operand # extra) kw])) \<and>
           length extra = length (filter (\<lambda>p. pkind p = PosOnly) (tl (signature N :: 'd param list))) \<and>
           distinct (map fst kw) \<and>
           set (map fst kw) = set (map pname (filter (\<lambda>p. pkind p \<noteq> PosOnly) (tl (signature N :: 'd param list)))) \<and>
           set kwargs \<subseteq> set kw \<and>
           set args \<subseteq> set extra \<union> snd ` set kw"
  using assms
proof (cases rule: accepted_cases)
  case Logit
  have fw: "set kwargs \<subseteq> set [(''eps'', kwarg kwargs ''eps'' PNone), (''complex_mode'', kwarg kwargs ''complex_mode'' (PStr ''jax'')), (''out'', kwarg kwargs ''out'' PNone)]"
    using kwargs_forwarded [OF Logit(3), of "[(''eps'', PNone), (''complex_mode'', (PStr ''jax'')), (''out'', PNone)]"] Logit(4) by simp
  show ?thesis
    by (insert Logit fw, rule exI [of _ "PArray self"], rule exI [of _ "[]"],
        rule exI [of _ "[(''eps'', kwarg kwargs ''eps'' PNone), (''complex_mode'', kwarg kwargs ''complex_mode'' (PStr ''jax'')), (''out'', kwarg kwargs ''out'' PNone)]"])
       (simp add: call_Logit traced_with_log array_data_with_log)
next
  case Thresholded_relu
  have fw: "set kwargs \<subseteq> set [(''threshold'', kwarg kwargs ''threshold'' (PInt 0)), (''out'', kwarg kwargs ''out'' PNone)]"
    using kwargs_forwarded [OF Thresholded_relu(3), of "[(''threshold'', (PInt 0)), (''out'', PNone)]"] Thresholded_relu(4) by simp
  show ?thesis
    by (insert Thresholded_relu fw, rule exI [of _ "PNative (array_data s self)"], rule exI [of _ "[]"],
        rule exI [of _ "[(''threshold'', kwarg kwargs ''threshold'' (PInt 0)), (''out'', kwarg kwargs ''out'' PNone)]"])
       (simp add: call_Thresholded_relu traced_with_log array_data_with_log)
next
  case (Prelu slope)
  have fw: "set kwargs \<subseteq> set [(''out'', kwarg kwargs ''out'' PNone)]"
    using kwargs_forwarded [OF Prelu(3), of "[(''out'', PNone)]"] Prelu(4) by simp
  show ?thesis
    by (insert Prelu fw, rule exI [of _ "PNative (array_data s self)"], rule exI [of _ "[slope]"],
        rule exI [of _ "[(''out'', kwarg kwargs ''out'' PNone)]"])
       (simp add: call_Prelu traced_with_log array_data_with_log)
next
  case Relu6
  have fw: "set kwargs \<subseteq> set [(''complex_mode'', kwarg kwargs ''complex_mode'' (PStr ''jax'')), (''out'', kwarg kwargs ''out'' PNone)]"
    using kwargs_forwarded [OF Relu6(3), of "[(''complex_mode'', (PStr ''jax'')), (''out'', PNone)]"] Relu6(4) by simp
  show ?thesis
    by (insert Relu6 fw, rule exI [of _ "PNative (array_data s self)"], rule exI [of _ "[]"],
        rule exI [of _ "[(''complex_mode'', kwarg kwargs ''complex_mode'' (PStr ''jax'')), (''out'', kwarg kwargs ''out'' PNone)]"])
       (simp add: call_Relu6 traced_with_log array_data_with_log)
next
  case Logsigmoid
  have fw: "set kwargs \<subseteq> set [(''complex_mode'', kwarg kwargs ''complex_mode'' (PStr ''jax''))]"
    using kwargs_forwarded [OF Logsigmoid(3), of "[(''complex_mode'', (PStr ''jax''))]"] Logsigmoid(4) by simp
  show ?thesis
    by (insert Logsigmoid fw, rule exI [of _ "PNative (array_data s self)"], rule exI [of _ "[]"],
        rule exI [of _ "[(''complex_mode'', kwarg kwargs ''complex_mode'' (PStr ''jax''))]"])
       (simp add: call_Logsigmoid traced_with_log array_data_with_log)
next
  case (Logsigmoid_positional complex_mode)
  show ?thesis
    by (insert Logsigmoid_positional, rule exI [of _ "PNative (array_data s self)"], rule exI [of _ "[]"],
        rule exI [of _ "[(''complex_mode'', complex_mode)]"])
       (simp add: call_Logsigmoid traced_with_log array_data_with_log)
next
  case Selu
  have fw: "set kwargs \<subseteq> set [(''out'', kwarg kwargs ''out'' PNone)]"
    using kwargs_forwarded [OF Selu(3), of "[(''out'', PNone)]"] Selu(4) by simp
  show ?thesis
    by (insert Selu fw, rule exI [of _ "PNative (array_data s self)"], rule exI [of _ "[]"],
        rule exI [of _ "[(''out'', kwarg kwargs ''out'' PNone)]"])
       (simp add: call_Selu traced_with_log array_data_with_log)
next
  case Silu
  have fw: "set kwargs \<subseteq> set [(''out'', kwarg kwargs ''out'' PNone)]"
    using kwargs_forwarded [OF Silu(3), of "[(''out'', PNone)]"] Silu(4) by simp
  show ?thesis
    by (insert Silu fw, rule exI [of _ "PNative (array_data s self)"], rule exI [of _ "[]"],
        rule exI [of _ "[(''out'', kwarg kwargs ''out'' PNone)]"])
       (simp add: call_Silu traced_with_log array_data_with_log)
next
  case Elu
  have fw: "set kwargs \<subseteq> set [(''alpha'', kwarg kwargs ''alpha'' (PFloat 1.0)), (''out'', kwarg kwargs ''out'' PNone)]"
    using kwargs_forwarded [OF Elu(3), of "[(''alpha'', (PFloat 1.0)), (''out'', PNone)]"] Elu(4) by simp
  show ?thesis
    by (insert Elu fw, rule exI [of _ "PNative (array_data s self)"], rule exI [of _ "[]"],
        rule exI [of _ "[(''alpha'', kwarg kwargs ''alpha'' (PFloat 1.0)), (''out'', kwarg kwargs ''out'' PNone)]"])
       (simp add: call_Elu traced_with_log array_data_with_log)
next
  case Hardtanh
  have fw: "set kwargs \<subseteq> set [(''min_val'', kwarg kwargs ''min_val'' (PInt (- 1))), (''max_val'', kwarg kwargs ''max_val'' (PInt 1)), (''out'', kwarg kwargs ''out'' PNone)]"
    using kwargs_forwarded [OF Hardtanh(3), of "[(''min_val'', (PInt (- 1))), (''max_val'', (PInt 1)), (''out'', PNone)]"] Hardtanh(4) by (simp add: insert_commute)
  show ?thesis
    by (insert Hardtanh fw, rule exI [of _ "PNative (array_data s self)"], rule exI [of _ "[]"],
        rule exI [of _ "[(''min_val'', kwarg kwargs ''min_val'' (PInt (- 1))), (''max_val'', kwarg kwargs ''max_val'' (PInt 1)), (''out'', kwarg kwargs ''out'' PNone)]"])
       (simp add: call_Hardtanh traced_with_log array_data_with_log insert_commute)
next
  case Tanhshrink
  have fw: "set kwargs \<subseteq> set [(''out'', kwarg kwargs ''out'' PNone)]"
    using kwargs_forwarded [OF Tanhshrink(3), of "[(''out'', PNone)]"] Tanhshrink(4) by simp
  show ?thesis
    by (insert Tanhshrink fw, rule exI [of _ "PNative (array_data s self)"], rule exI [of _ "[]"],
        rule exI [of _ "[(''out'', kwarg kwargs ''out'' PNone)]"])
       (simp add: call_Tanhshrink traced_with_log array_data_with_log)
next
  case Celu
  have fw: "set kwargs \<subseteq> set [(''alpha'', kwarg kwargs ''alpha'' (PFloat 1.0)), (''complex_mode'', kwarg kwargs ''complex_mode'' (PStr ''jax'')), (''out'', kwarg kwargs ''out'' PNone)]"
    using kwargs_forwarded [OF Celu(3), of "[(''alpha'', (PFloat 1.0)), (''complex_mode'', (PStr ''jax'')), (''out'', PNone)]"] Celu(4) by simp
  show ?thesis
    by (insert Celu fw, rule exI [of _ "PNative (array_data s self)"], rule exI [of _ "[]"],
        rule exI [of _ "[(''alpha'', kwarg kwargs ''alpha'' (PFloat 1.0)), (''complex_mode'', kwarg kwargs ''complex_mode'' (PStr ''jax'')), (''out'', kwarg kwargs ''out'' PNone)]"])
       (simp add: call_Celu traced_with_log array_data_with_log)
qed

theorem each_method_calls_its_backend_function_once_witness:
  "(bind_args (signature Elu) [PArray 0] [(''alpha'', PFloat 2)] :: unit exn + nat pyval list) =
     Inr [PArray 0, PFloat 2, PNone]
   \<and> (\<exists>operand extra kw.
         (operand = PArray 0 \<or> operand = PNative (array_data (store (7::nat)) 0)) \<and>
         call_method (stub (PStr ''sentinel'') :: (nat, unit, unit) namespace) Elu 0 []
             [(''alpha'', PFloat 2)] (store 7) =
           (stub (PStr ''sentinel'') :: (nat, unit, unit) namespace) (method_name Elu)
             (operand # extra) kw (store 7) \<and>
         call_method (traced (stub (PStr ''sentinel'') :: (nat, unit, unit) namespace)) Elu 0 []
             [(''alpha'', PFloat 2)] (with_log (store 7) []) =
           (case (stub (PStr ''sentinel'') :: (nat, unit, unit) namespace) (method_name Elu)
                   (operand # extra) kw (store 7) of
              (r, s') \<Rightarrow> (r, with_log s' [Call (method_name Elu) (operand # extra) kw])) \<and>
         length extra =
           length (filter (\<lambda>p. pkind p = PosOnly) (tl (signature Elu :: nat param list))) \<and>
         distinct (map fst kw) \<and>
         set (map fst kw) =
           set (map pname (filter (\<lambda>p. pkind p \<noteq> PosOnly) (tl (signature Elu :: nat param list)))) \<and>
         set [(''alpha'', PFloat 2)] \<subseteq> set kw \<and>
         set [] \<subseteq> set extra \<union> snd ` set kw)
   \<and> invocations (stub (PStr ''sentinel'') :: (nat, unit, unit) namespace) Elu 0 []
         [(''alpha'', PFloat 2)] (store 7) =
       [Call ''elu'' [PNative 7] [(''alpha'', PFloat 2), (''out'', PNone)]]"
proof -
  have h: "(bind_args (signature Elu) [PArray 0] [(''alpha'', PFloat 2)] :: unit exn + nat pyval list) =
             Inr [PArray 0, PFloat 2, PNone]"
    by (simp add: bind_args_def)
  have c: "invocations (stub (PStr ''sentinel'') :: (nat, unit, unit) namespace) Elu 0 []
             [(''alpha'', PFloat 2)] (store 7) =
           [Call ''elu'' [PNative 7] [(''alpha'', PFloat 2), (''out'', PNone)]]"
    by (simp add: invocations_def call_Elu kwarg_def traced_with_log array_data_with_log
          world_with_log stub_def store_def)
  show ?thesis
    by (intro conjI h c
          each_method_calls_its_backend_function_once
            [OF h, of "store 7" "stub (PStr ''sentinel'') :: (nat, unit, unit) namespace"])
qed

subsection \<open>C2: \<^verbatim>\<open>logit\<close> called without arguments\<close>

text \<open>
  C2, as amended. Calling \<^verbatim>\<open>logit\<close> with no arguments on a handle invokes the backend
  function \<^verbatim>\<open>logit\<close> exactly once, with the handle itself (the wrapper, not the raw
  data it wraps) as first operand and the defaults \<^verbatim>\<open>eps=None\<close>,
  \<^verbatim>\<open>complex_mode="jax"\<close>, \<^verbatim>\<open>out=None\<close>, and returns what the backend returns,
  unchanged.
\<close>

theorem logit_without_arguments:
  "call_method ivy Logit self [] [] s =
     ivy ''logit'' [PArray self]
       [(''eps'', PNone), (''complex_mode'', PStr ''jax''), (''out'', PNone)] s
   \<and> call_method (traced ivy) Logit self [] [] (with_log s []) =
     (case ivy ''logit'' [PArray self]
             [(''eps'', PNone), (''complex_mode'', PStr ''jax''), (''out'', PNone)] s of
        (r, s') \<Rightarrow>
          (r, with_log s'
                [Call ''logit'' [PArray self]
                   [(''eps'', PNone), (''complex_mode'', PStr ''jax''), (''out'', PNone)]]))"
  by (simp add: call_Logit kwarg_def traced_with_log)

text \<open>
  The scenario of the specification: the stub returns a sentinel, the handle is array
  \<open>0\<close>, which wraps the buffer \<open>7\<close>.
\<close>

theorem logit_without_arguments_witness:
  "call_method (stub (PStr ''sentinel'') :: (nat, unit, unit) namespace) Logit 0 [] [] (store 7) =
     (Inr (PStr ''sentinel''), store 7)
   \<and> invocations (stub (PStr ''sentinel'') :: (nat, unit, unit) namespace) Logit 0 [] [] (store 7) =
     [Call ''logit'' [PArray 0]
        [(''eps'', PNone), (''complex_mode'', PStr ''jax''), (''out'', PNone)]]"
  using logit_without_arguments [of "stub (PStr ''sentinel'') :: (nat, unit, unit) namespace" 0 "store 7"]
  by (simp add: stub_def invocations_def world_with_log)

text \<open>
  C2 as stated fails: in that scenario the recorded call is not the one whose first
  operand is the raw data \<open>7\<close> of the handle.
\<close>

theorem logit_raw_data_counterexample:
  "array_data (store (7::nat)) 0 = 7
   \<and> invocations (stub (PStr ''sentinel'') :: (nat, unit, unit) namespace) Logit 0 [] [] (store 7) \<noteq>
     [Call ''logit'' [PNative 7]
        [(''eps'', PNone), (''complex_mode'', PStr ''jax''), (''out'', PNone)]]"
  by (simp add: invocations_def call_Logit kwarg_def traced_with_log stub_def world_with_log
        store_def)

subsection \<open>C3: defaults\<close>

text \<open>
  C3. In a call that binds, a parameter the caller omits reaches the backend call with
  the default the specification documents for it: for instance \<^verbatim>\<open>alpha=1.0\<close> in
  \<^verbatim>\<open>elu\<close> and \<^verbatim>\<open>celu\<close>, \<^verbatim>\<open>max_val=1\<close> and \<^verbatim>\<open>min_val=-1\<close> in \<^verbatim>\<open>hardtanh\<close>,
  \<^verbatim>\<open>threshold=0\<close> in \<^verbatim>\<open>thresholded_relu\<close>, \<^verbatim>\<open>complex_mode="jax"\<close>, and
  \<^verbatim>\<open>out=None\<close> wherever there is an \<^verbatim>\<open>out\<close>. (In \<^verbatim>\<open>logsigmoid\<close> a positional
  argument is \<^verbatim>\<open>complex_mode\<close>, so omitting it there means no positional argument
  either.)
\<close>

theorem omitted_parameters_take_documented_defaults:
  assumes "(bind_args (signature N) (PArray self # args) kwargs :: 'e exn + 'd pyval list) = Inr locals"
    and "(k, d) \<in> set (spec_defaults N)"
    and "k \<notin> fst ` set kwargs"
    and "N = Logsigmoid \<longrightarrow> args = []"
  shows "\<exists>operands kw.
           invocations (ivy :: ('d, 'e, 'w) namespace) N self args kwargs s =
             [Call (method_name N) operands kw] \<and>
           map_of kw k = Some d"
proof -
  have absent: "map_of kwargs k = None"
    using assms(3) by (simp add: map_of_eq_None_iff)
  show ?thesis
    using assms(1,2,4) absent
    by (cases rule: accepted_cases)
       (auto simp: invocations_def call_simps traced_with_log array_data_with_log
          log_of_traced kwarg_absent)
qed

theorem omitted_parameters_take_documented_defaults_witness:
  "(bind_args (signature Hardtanh) [PArray 0] [(''min_val'', PInt (- 2))]
      :: unit exn + nat pyval list) = Inr [PArray 0, PInt 1, PInt (- 2), PNone]
   \<and> (''max_val'', PInt 1) \<in> set (spec_defaults Hardtanh :: nat kwargs)
   \<and> ''max_val'' \<notin> fst ` set [(''min_val'', PInt (- 2) :: nat pyval)]
   \<and> Hardtanh \<noteq> Logsigmoid
   \<and> (\<exists>operands kw.
         invocations (stub PNone :: (nat, unit, unit) namespace) Hardtanh 0 []
             [(''min_val'', PInt (- 2))] (store 7) =
           [Call (method_name Hardtanh) operands kw] \<and>
         map_of kw ''max_val'' = Some (PInt 1))
   \<and> invocations (stub PNone :: (nat, unit, unit) namespace) Hardtanh 0 [] [] (store 7) =
       [Call ''hardtanh'' [PNative 7]
          [(''min_val'', PInt (- 1)), (''max_val'', PInt 1), (''out'', PNone)]]
   \<and> invocations (stub PNone :: (nat, unit, unit) namespace) Elu 0 [] [] (store 7) =
       [Call ''elu'' [PNative 7] [(''alpha'', PFloat 1.0), (''out'', PNone)]]
   \<and> invocations (stub PNone :: (nat, unit, unit) namespace) Thresholded_relu 0 [] [] (store 7) =
       [Call ''thresholded_relu'' [PNative 7] [(''threshold'', PInt 0), (''out'', PNone)]]
   \<and> invocations (stub PNone :: (nat, unit, unit) namespace) Celu 0 [] [] (store 7) =
       [Call ''celu'' [PNative 7]
          [(''alpha'', PFloat 1.0), (''complex_mode'', PStr ''jax''), (''out'', PNone)]]"
proof -
  have h: "(bind_args (signature Hardtanh) [PArray 0] [(''min_val'', PInt (- 2))]
             :: unit exn + nat pyval list) = Inr [PArray 0, PInt 1, PInt (- 2), PNone]"
    by (simp add: bind_args_def)
  have m: "(''max_val'', PInt 1) \<in> set (spec_defaults Hardtanh :: nat kwargs)"
    by simp
  have a: "''max_val'' \<notin> fst ` set [(''min_val'', PInt (- 2) :: nat pyval)]"
    by simp
  have n: "Hardtanh \<noteq> Logsigmoid"
    by simp
  have l: "Hardtanh = Logsigmoid \<longrightarrow> ([] :: nat pyval list) = []"
    by simp
  have e1: "invocations (stub PNone :: (nat, unit, unit) namespace) Hardtanh 0 [] [] (store 7) =
       [Call ''hardtanh'' [PNative 7]
          [(''min_val'', PInt (- 1)), (''max_val'', PInt 1), (''out'', PNone)]]"
    by (simp add: invocations_def call_Hardtanh kwarg_def traced_with_log array_data_with_log
          world_with_log stub_def store_def)
  have e2: "invocations (stub PNone :: (nat, unit, unit) namespace) Elu 0 [] [] (store 7) =
       [Call ''elu'' [PNative 7] [(''alpha'', PFloat 1.0), (''out'', PNone)]]"
    by (simp add: invocations_def call_Elu kwarg_def traced_with_log array_data_with_log
          world_with_log stub_def store_def)
  have e3: "invocations (stub PNone :: (nat, unit, unit) namespace) Thresholded_relu 0 [] [] (store 7) =
       [Call ''thresholded_relu'' [PNative 7] [(''threshold'', PInt 0), (''out'', PNone)]]"
    by (simp add: invocations_def call_Thresholded_relu kwarg_def traced_with_log
          array_data_with_log world_with_log stub_def store_def)
  have e4: "invocations (stub PNone :: (nat, unit, unit) namespace) Celu 0 [] [] (store 7) =
       [Call ''celu'' [PNative 7]
          [(''alpha'', PFloat 1.0), (''complex_mode'', PStr ''jax''), (''out'', PNone)]]"
    by (simp add: invocations_def call_Celu kwarg_def traced_with_log array_data_with_log
          world_with_log stub_def store_def)
  show ?thesis
    by (intro conjI h m a n e1 e2 e3 e4
          omitted_parameters_take_documented_defaults
            [OF h m a l, of "stub PNone :: (nat, unit, unit) namespace" "store 7"])
qed

subsection \<open>C4: the output buffer\<close>

text \<open>
  C4. Every method but \<^verbatim>\<open>logsigmoid\<close> declares the optional keyword parameter
  \<^verbatim>\<open>out\<close> (default \<^verbatim>\<open>None\<close>) and accepts a call that gives it; \<^verbatim>\<open>logsigmoid\<close> declares
  no \<^verbatim>\<open>out\<close> and rejects every call that gives one, before any backend call. In every
  call that binds, an \<^verbatim>\<open>out\<close> the caller gives is the \<^verbatim>\<open>out\<close> keyword of the backend
  call, unchanged.
\<close>

theorem out_is_forwarded_unchanged:
  "(N \<noteq> Logsigmoid \<longrightarrow>
      Param ''out'' KwOnly (Some PNone) \<in> set (signature N :: 'd param list) \<and>
      (\<exists>operands kw.
          invocations (ivy :: ('d, 'e, 'w) namespace) N self (if N = Prelu then [slope] else [])
              [(''out'', v)] s =
            [Call (method_name N) operands kw] \<and>
          map_of kw ''out'' = Some v))
   \<and> ''out'' \<notin> pname ` set (signature Logsigmoid :: 'd param list)
   \<and> (''out'' \<in> fst ` set kwargs \<longrightarrow>
        call_method ivy Logsigmoid self args kwargs s = (Inl TypeError, s) \<and>
        invocations ivy Logsigmoid self args kwargs s = [])
   \<and> ((bind_args (signature N) (PArray self # args) kwargs :: 'e exn + 'd pyval list) = Inr locals \<longrightarrow>
        (''out'', v) \<in> set kwargs \<longrightarrow>
        (\<exists>operands kw.
            invocations ivy N self args kwargs s = [Call (method_name N) operands kw] \<and>
            map_of kw ''out'' = Some v))"
proof (intro conjI impI)
  assume "N \<noteq> Logsigmoid"
  then show "Param ''out'' KwOnly (Some PNone) \<in> set (signature N :: 'd param list)"
    by (cases N) simp_all
next
  assume "N \<noteq> Logsigmoid"
  then show "\<exists>operands kw.
      invocations ivy N self (if N = Prelu then [slope] else []) [(''out'', v)] s =
        [Call (method_name N) operands kw] \<and>
      map_of kw ''out'' = Some v"
    by (cases N)
       (simp_all add: invocations_def call_simps traced_with_log array_data_with_log
          log_of_traced kwarg_def)
next
  show "''out'' \<notin> pname ` set (signature Logsigmoid :: 'd param list)"
    by simp
next
  assume "''out'' \<in> fst ` set kwargs"
  then show "call_method ivy Logsigmoid self args kwargs s = (Inl TypeError, s)"
    by (auto simp: call_Logsigmoid)
next
  assume "''out'' \<in> fst ` set kwargs"
  then show "invocations ivy Logsigmoid self args kwargs s = []"
    by (auto simp: invocations_def call_Logsigmoid world_with_log)
next
  assume a: "(bind_args (signature N) (PArray self # args) kwargs :: 'e exn + 'd pyval list) = Inr locals"
    and o: "(''out'', v) \<in> set kwargs"
  from a have d: "distinct (map fst kwargs)"
    by (cases rule: accepted_cases) simp_all
  note kv = kwarg_mem [OF d o]
  from a o show "\<exists>operands kw.
      invocations ivy N self args kwargs s = [Call (method_name N) operands kw] \<and>
      map_of kw ''out'' = Some v"
    by (cases rule: accepted_cases)
       (auto simp: invocations_def call_simps traced_with_log array_data_with_log
          log_of_traced kv)
qed

theorem out_is_forwarded_unchanged_witness:
  "Selu \<noteq> Logsigmoid
   \<and> Param ''out'' KwOnly (Some PNone) \<in> set (signature Selu :: nat param list)
   \<and> (\<exists>operands kw.
         invocations (stub PNone :: (nat, unit, unit) namespace) Selu 0
             (if Selu = Prelu then [PNone] else []) [(''out'', PArray 1)] (store 7) =
           [Call (method_name Selu) operands kw] \<and>
         map_of kw ''out'' = Some (PArray 1))
   \<and> ''out'' \<in> fst ` set [(''out'', PArray 1 :: nat pyval)]
   \<and> call_method (stub PNone :: (nat, unit, unit) namespace) Logsigmoid 0 []
         [(''out'', PArray 1)] (store 7) = (Inl TypeError, store 7)
   \<and> invocations (stub PNone :: (nat, unit, unit) namespace) Logsigmoid 0 []
         [(''out'', PArray 1)] (store 7) = []
   \<and> (bind_args (signature Selu) [PArray 0] [(''out'', PArray 1)] :: unit exn + nat pyval list) =
       Inr [PArray 0, PArray 1]
   \<and> (''out'', PArray 1) \<in> set [(''out'', PArray 1 :: nat pyval)]
   \<and> (\<exists>operands kw.
         invocations (stub PNone :: (nat, unit, unit) namespace) Selu 0 []
             [(''out'', PArray 1)] (store 7) =
           [Call (method_name Selu) operands kw] \<and>
         map_of kw ''out'' = Some (PArray 1))"
proof -
  note T = out_is_forwarded_unchanged
    [where N = Selu and ivy = "stub PNone :: (nat, unit, unit) namespace" and self = 0
       and slope = PNone and v = "PArray 1" and s = "store 7" and args = "[]"
       and kwargs = "[(''out'', PArray 1)]" and locals = "[PArray 0, PArray 1]"]
  have n: "Selu \<noteq> Logsigmoid"
    by simp
  have o: "''out'' \<in> fst ` set [(''out'', PArray 1 :: nat pyval)]"
    by simp
  have h: "(bind_args (signature Selu) [PArray 0] [(''out'', PArray 1)]
             :: unit exn + nat pyval list) = Inr [PArray 0, PArray 1]"
    by (simp add: bind_args_def)
  have g: "(''out'', PArray 1) \<in> set [(''out'', PArray 1 :: nat pyval)]"
    by simp
  from T n o h g show ?thesis
    by blast
qed

subsection \<open>C5: \<^verbatim>\<open>prelu\<close> needs its slope\<close>

text \<open>
  C5. \<^verbatim>\<open>prelu\<close> called without a positional argument fails with \<open>TypeError\<close>
  whatever the keyword arguments are, the backend is not called and the state is as it
  was: \<^verbatim>\<open>slope\<close> is a positional-only parameter without a default.
\<close>

theorem prelu_requires_slope:
  "call_method ivy Prelu self [] kwargs s = (Inl TypeError, s)
   \<and> invocations ivy Prelu self [] kwargs s = []
   \<and> Param ''slope'' PosOnly None \<in> set (signature Prelu :: 'd param list)"
  by (simp add: invocations_def call_Prelu world_with_log)

theorem prelu_requires_slope_witness:
  "call_method (stub PNone :: (nat, unit, unit) namespace) Prelu 0 [] [(''out'', PArray 1)] (store 7) =
     (Inl TypeError, store 7)
   \<and> invocations (stub PNone :: (nat, unit, unit) namespace) Prelu 0 [] [(''out'', PArray 1)] (store 7) = []"
  using prelu_requires_slope [of "stub PNone :: (nat, unit, unit) namespace" 0 "[(''out'', PArray 1)]" "store 7"]
  by simp

subsection \<open>C6: errors of the backend\<close>

text \<open>
  C6. When the backend call a method makes raises an error, the method raises that very
  error, and the state is the one the backend left: nothing is caught, wrapped or
  replaced.
\<close>

theorem backend_errors_propagate_unchanged:
  assumes "invocations (ivy :: ('d, 'e, 'w) namespace) N self args kwargs s = [Call name operands kw]"
    and "ivy name operands kw s = (Inl e, s')"
  shows "call_method ivy N self args kwargs s = (Inl e, s')"
proof (cases "bind_args (signature N) (PArray self # args) kwargs :: 'e exn + 'd pyval list")
  case (Inl err)
  from rejected_call(2) [OF Inl, of ivy s] assms(1) show ?thesis by simp
next
  case (Inr locals)
  from accepted_call [OF Inr, of ivy s] assms show ?thesis by auto
qed

theorem backend_errors_propagate_unchanged_witness:
  "invocations (raising ''boom'' :: (nat, string, unit) namespace) Silu 0 [] [] (store 7) =
     [Call ''silu'' [PNative 7] [(''out'', PNone)]]
   \<and> (raising ''boom'' :: (nat, string, unit) namespace) ''silu'' [PNative 7] [(''out'', PNone)]
         (store 7) = (Inl (Raised ''boom''), store 7)
   \<and> call_method (raising ''boom'' :: (nat, string, unit) namespace) Silu 0 [] [] (store 7) =
       (Inl (Raised ''boom''), store 7)"
proof -
  have i: "invocations (raising ''boom'' :: (nat, string, unit) namespace) Silu 0 [] [] (store 7) =
             [Call ''silu'' [PNative 7] [(''out'', PNone)]]"
    by (simp add: invocations_def call_Silu kwarg_def traced_with_log array_data_with_log
          world_with_log raising_def store_def)
  have r: "(raising ''boom'' :: (nat, string, unit) namespace) ''silu'' [PNative 7]
             [(''out'', PNone)] (store 7) = (Inl (Raised ''boom''), store 7)"
    by (simp add: raising_def)
  show ?thesis
    by (intro conjI i r backend_errors_propagate_unchanged [OF i r])
qed

subsection \<open>C7: no state of the method's own\<close>

text \<open>
  C7. A method call either reaches no backend function and leaves the state as it was,
  or makes one backend call and leaves the state exactly as that call left it. So when
  the backend changes no array's data, the data of the receiver (and of every array) is
  after the call what it was before: the method assigns nothing and keeps nothing.
\<close>

theorem methods_keep_no_state:
  "((invocations (ivy :: ('d, 'e, 'w) namespace) N self args kwargs s = [] \<and>
     snd (call_method ivy N self args kwargs s) = s) \<or>
    (\<exists>operands kw.
        invocations ivy N self args kwargs s = [Call (method_name N) operands kw] \<and>
        snd (call_method ivy N self args kwargs s) = snd (ivy (method_name N) operands kw s)))
   \<and> ((\<forall>name a k t. array_data (snd (ivy name a k t)) = array_data t) \<longrightarrow>
        array_data (snd (call_method ivy N self args kwargs s)) = array_data s)"
proof (cases "bind_args (signature N) (PArray self # args) kwargs :: 'e exn + 'd pyval list")
  case (Inl err)
  from rejected_call [OF Inl, of ivy s] show ?thesis by simp
next
  case (Inr locals)
  from accepted_call [OF Inr, of ivy s] obtain extra kw where
    c: "call_method ivy N self args kwargs s =
          ivy (method_name N)
            ((if N = Logit then PArray self else PNative (array_data s self)) # extra) kw s"
    and i: "invocations ivy N self args kwargs s =
          [Call (method_name N)
             ((if N = Logit then PArray self else PNative (array_data s self)) # extra) kw]"
    by blast
  show ?thesis
  proof (intro conjI impI)
    show "(invocations ivy N self args kwargs s = [] \<and>
           snd (call_method ivy N self args kwargs s) = s) \<or>
          (\<exists>operands kw.
              invocations ivy N self args kwargs s = [Call (method_name N) operands kw] \<and>
              snd (call_method ivy N self args kwargs s) = snd (ivy (method_name N) operands kw s))"
      using c i by (intro disjI2 exI conjI) simp_all
  next
    assume "\<forall>name a k t. array_data (snd (ivy name a k t)) = array_data t"
    then show "array_data (snd (call_method ivy N self args kwargs s)) = array_data s"
      by (simp add: c)
  qed
qed

theorem methods_keep_no_state_witness:
  "(\<forall>name a k t. array_data (snd ((stub PNone :: (nat, unit, unit) namespace) name a k t)) =
       array_data t)
   \<and> array_data (snd (call_method (stub PNone :: (nat, unit, unit) namespace) Relu6 0 [] []
         (store 7))) = array_data (store 7)
   \<and> invocations (stub PNone :: (nat, unit, unit) namespace) Relu6 0 [] [] (store 7) =
       [Call ''relu6'' [PNative 7] [(''complex_mode'', PStr ''jax''), (''out'', PNone)]]
   \<and> snd (call_method (stub PNone :: (nat, unit, unit) namespace) Relu6 0 [] [] (store 7)) =
       store 7"
proof -
  have p: "\<forall>name a k t. array_data (snd ((stub PNone :: (nat, unit, unit) namespace) name a k t)) =
             array_data t"
    by (simp add: stub_def)
  have i: "invocations (stub PNone :: (nat, unit, unit) namespace) Relu6 0 [] [] (store 7) =
             [Call ''relu6'' [PNative 7] [(''complex_mode'', PStr ''jax''), (''out'', PNone)]]"
    by (simp add: invocations_def call_Relu6 kwarg_def traced_with_log array_data_with_log
          world_with_log stub_def store_def)
  have s: "snd (call_method (stub PNone :: (nat, unit, unit) namespace) Relu6 0 [] [] (store 7)) =
             store 7"
    using methods_keep_no_state
            [of "stub PNone :: (nat, unit, unit) namespace" Relu6 0 "[]" "[]" "store 7"] i
    by (auto simp: stub_def)
  have a: "array_data (snd (call_method (stub PNone :: (nat, unit, unit) namespace) Relu6 0 [] []
             (store 7))) = array_data (store 7)"
    using methods_keep_no_state
            [of "stub PNone :: (nat, unit, unit) namespace" Relu6 0 "[]" "[]" "store 7"] p
    by blast
  show ?thesis by (intro conjI p a i s)
qed

subsection \<open>C8: the first operand\<close>

text \<open>
  C8. In a call that binds, the first operand of the backend call is the wrapper object
  itself when the method is \<^verbatim>\<open>logit\<close>, and the receiver's raw buffer \<^verbatim>\<open>self._data\<close>
  when it is one of the other ten.
\<close>

theorem logit_alone_passes_the_wrapper:
  assumes "(bind_args (signature N) (PArray self # args) kwargs :: 'e exn + 'd pyval list) = Inr locals"
  shows "\<exists>extra kw.
           invocations (ivy :: ('d, 'e, 'w) namespace) N self args kwargs s =
             [Call (method_name N)
                ((if N = Logit then PArray self else PNative (array_data s self)) # extra) kw]"
  using accepted_call [OF assms, of ivy s] by blast

theorem logit_alone_passes_the_wrapper_witness:
  "(bind_args (signature Selu) [PArray 0] [] :: unit exn + nat pyval list) = Inr [PArray 0, PNone]
   \<and> (\<exists>extra kw.
         invocations (stub PNone :: (nat, unit, unit) namespace) Selu 0 [] [] (store 7) =
           [Call (method_name Selu)
              ((if Selu = Logit then PArray 0 else PNative (array_data (store 7) 0)) # extra) kw])
   \<and> (bind_args (signature Logit) [PArray 0] [] :: unit exn + nat pyval list) =
       Inr [PArray 0, PNone, PStr ''jax'', PNone]
   \<and> (\<exists>extra kw.
         invocations (stub PNone :: (nat, unit, unit) namespace) Logit 0 [] [] (store 7) =
           [Call (method_name Logit)
              ((if Logit = Logit then PArray 0 else PNative (array_data (store 7) 0)) # extra) kw])"
proof -
  have h: "(bind_args (signature Selu) [PArray 0] [] :: unit exn + nat pyval list) =
             Inr [PArray 0, PNone]"
    by (simp add: bind_args_def)
  have l: "(bind_args (signature Logit) [PArray 0] [] :: unit exn + nat pyval list) =
             Inr [PArray 0, PNone, PStr ''jax'', PNone]"
    by (simp add: bind_args_def)
  show ?thesis
    by (intro conjI h l
          logit_alone_passes_the_wrapper
            [OF h, of "stub PNone :: (nat, unit, unit) namespace" "store 7"]
          logit_alone_passes_the_wrapper
            [OF l, of "stub PNone :: (nat, unit, unit) namespace" "store 7"])
qed

subsection \<open>C9: positional and keyword parameters\<close>

text \<open>
  C9. In every method but \<^verbatim>\<open>logsigmoid\<close> the receiver is positional-only and every
  other parameter except \<^verbatim>\<open>slope\<close> of \<^verbatim>\<open>prelu\<close> is keyword-only. So a call with a
  positional argument is rejected by every method but \<^verbatim>\<open>logsigmoid\<close> and \<^verbatim>\<open>prelu\<close>,
  \<^verbatim>\<open>prelu\<close> takes exactly one (the slope), and no method takes its receiver by
  keyword; a rejected call reaches no backend function. In \<^verbatim>\<open>logsigmoid\<close> both
  parameters are positional-or-keyword: \<^verbatim>\<open>handle.logsigmoid(v)\<close> is accepted and
  forwards \<^verbatim>\<open>complex_mode=v\<close>.
\<close>

theorem extra_parameters_are_keyword_only:
  "(N \<noteq> Logsigmoid \<longrightarrow>
      pkind (hd (signature N :: 'd param list)) = PosOnly \<and>
      (\<forall>p \<in> set (tl (signature N :: 'd param list)). pname p \<noteq> ''slope'' \<longrightarrow> pkind p = KwOnly))
   \<and> (N \<noteq> Logsigmoid \<longrightarrow> N \<noteq> Prelu \<longrightarrow> args \<noteq> [] \<longrightarrow>
        call_method (ivy :: ('d, 'e, 'w) namespace) N self args kwargs s = (Inl TypeError, s) \<and>
        invocations ivy N self args kwargs s = [])
   \<and> (length args \<noteq> 1 \<longrightarrow>
        call_method ivy Prelu self args kwargs s = (Inl TypeError, s) \<and>
        invocations ivy Prelu self args kwargs s = [])
   \<and> (''self'' \<in> fst ` set kwargs \<longrightarrow>
        call_method ivy N self args kwargs s = (Inl TypeError, s) \<and>
        invocations ivy N self args kwargs s = [])
   \<and> map pkind (signature Logsigmoid :: 'd param list) = [PosOrKw, PosOrKw]
   \<and> call_method ivy Logsigmoid self [v] [] s =
        ivy ''logsigmoid'' [PNative (array_data s self)] [(''complex_mode'', v)] s
   \<and> invocations ivy Logsigmoid self [v] [] s =
        [Call ''logsigmoid'' [PNative (array_data s self)] [(''complex_mode'', v)]]"
proof (intro conjI impI)
  assume "N \<noteq> Logsigmoid"
  then show "pkind (hd (signature N :: 'd param list)) = PosOnly"
    by (cases N) simp_all
next
  assume "N \<noteq> Logsigmoid"
  then show "\<forall>p \<in> set (tl (signature N :: 'd param list)). pname p \<noteq> ''slope'' \<longrightarrow> pkind p = KwOnly"
    by (cases N) simp_all
next
  assume "N \<noteq> Logsigmoid" "N \<noteq> Prelu" "args \<noteq> []"
  then show "call_method ivy N self args kwargs s = (Inl TypeError, s)"
    by (cases N) (simp_all add: call_simps)
next
  assume "N \<noteq> Logsigmoid" "N \<noteq> Prelu" "args \<noteq> []"
  then show "invocations ivy N self args kwargs s = []"
    by (cases N) (simp_all add: invocations_def call_simps world_with_log)
next
  assume "length args \<noteq> 1"
  then show "call_method ivy Prelu self args kwargs s = (Inl TypeError, s)"
    by (simp add: call_Prelu)
next
  assume "length args \<noteq> 1"
  then show "invocations ivy Prelu self args kwargs s = []"
    by (simp add: invocations_def call_Prelu world_with_log)
next
  assume "''self'' \<in> fst ` set kwargs"
  then show "call_method ivy N self args kwargs s = (Inl TypeError, s)"
    by (cases N) (auto simp: call_simps)
next
  assume "''self'' \<in> fst ` set kwargs"
  then show "invocations ivy N self args kwargs s = []"
    by (cases N) (auto simp: invocations_def call_simps world_with_log)
next
  show "map pkind (signature Logsigmoid :: 'd param list) = [PosOrKw, PosOrKw]"
    by simp
next
  show "call_method ivy Logsigmoid self [v] [] s =
          ivy ''logsigmoid'' [PNative (array_data s self)] [(''complex_mode'', v)] s"
    by (simp add: call_Logsigmoid)
next
  show "invocations ivy Logsigmoid self [v] [] s =
          [Call ''logsigmoid'' [PNative (array_data s self)] [(''complex_mode'', v)]]"
    by (simp add: invocations_def call_Logsigmoid traced_with_log array_data_with_log
          log_of_traced)
qed

theorem extra_parameters_are_keyword_only_witness:
  "Elu \<noteq> Logsigmoid \<and> Elu \<noteq> Prelu \<and> [PFloat 2, PFloat 3 :: nat pyval] \<noteq> []
   \<and> length [PFloat 2, PFloat 3 :: nat pyval] \<noteq> 1
   \<and> ''self'' \<in> fst ` set [(''self'', PArray 1 :: nat pyval)]
   \<and> pkind (hd (signature Elu :: nat param list)) = PosOnly
   \<and> Param ''alpha'' KwOnly (Some (PFloat 1.0)) \<in> set (tl (signature Elu :: nat param list))
   \<and> pkind (Param ''alpha'' KwOnly (Some (PFloat 1.0 :: nat pyval))) = KwOnly
   \<and> call_method (stub PNone :: (nat, unit, unit) namespace) Elu 0 [PFloat 2, PFloat 3]
         [(''self'', PArray 1)] (store 7) = (Inl TypeError, store 7)
   \<and> invocations (stub PNone :: (nat, unit, unit) namespace) Elu 0 [PFloat 2, PFloat 3]
         [(''self'', PArray 1)] (store 7) = []
   \<and> call_method (stub PNone :: (nat, unit, unit) namespace) Prelu 0 [PFloat 2, PFloat 3]
         [(''self'', PArray 1)] (store 7) = (Inl TypeError, store 7)
   \<and> invocations (stub PNone :: (nat, unit, unit) namespace) Prelu 0 [PFloat 2, PFloat 3]
         [(''self'', PArray 1)] (store 7) = []
   \<and> call_method (stub PNone :: (nat, unit, unit) namespace) Logsigmoid 0 [PStr ''split''] []
         (store 7) =
       (stub PNone :: (nat, unit, unit) namespace) ''logsigmoid''
         [PNative (array_data (store 7) 0)] [(''complex_mode'', PStr ''split'')] (store 7)
   \<and> invocations (stub PNone :: (nat, unit, unit) namespace) Logsigmoid 0 [PStr ''split''] []
         (store 7) =
       [Call ''logsigmoid'' [PNative (array_data (store 7) 0)]
          [(''complex_mode'', PStr ''split'')]]"
proof -
  note T = extra_parameters_are_keyword_only
    [where N = Elu and ivy = "stub PNone :: (nat, unit, unit) namespace" and self = 0
       and v = "PStr ''split''" and s = "store 7" and args = "[PFloat 2, PFloat 3]"
       and kwargs = "[(''self'', PArray 1)]"]
  have n: "Elu \<noteq> Logsigmoid" "Elu \<noteq> Prelu" "[PFloat 2, PFloat 3 :: nat pyval] \<noteq> []"
    "length [PFloat 2, PFloat 3 :: nat pyval] \<noteq> 1"
    "''self'' \<in> fst ` set [(''self'', PArray 1 :: nat pyval)]"
    by simp_all
  have p: "Param ''alpha'' KwOnly (Some (PFloat 1.0)) \<in> set (tl (signature Elu :: nat param list))"
    "pkind (Param ''alpha'' KwOnly (Some (PFloat 1.0 :: nat pyval))) = KwOnly"
    by simp_all
  from T n p show ?thesis
    by blast
qed

subsection \<open>C10: the backend call depends on the receiver and the arguments only\<close>

text \<open>
  C10. Two calls of the same method on the same receiver, wrapping the same data, with
  the same arguments make the same backend calls (function name, operands, keywords),
  whatever the two backends and the rest of the two states are.
\<close>

theorem invocations_depend_on_receiver_and_arguments_only:
  assumes "array_data s self = array_data s' self"
  shows "invocations (ivy :: ('d, 'e, 'w) namespace) N self args kwargs s =
         invocations (ivy' :: ('d, 'e', 'w') namespace) N self args kwargs s'"
  using assms
  by (cases N)
     (simp_all add: invocations_def call_simps traced_with_log array_data_with_log
        log_of_traced world_with_log)

theorem invocations_depend_on_receiver_and_arguments_only_witness:
  "array_data (store (7::nat)) 0 = array_data (store_but 7 1 9) 0
   \<and> array_data (store (7::nat)) 1 \<noteq> array_data (store_but 7 1 9) 1
   \<and> invocations (stub PNone :: (nat, unit, unit) namespace) Celu 0 []
         [(''alpha'', PFloat 2)] (store 7) =
       invocations (raising ''boom'' :: (nat, string, unit) namespace) Celu 0 []
         [(''alpha'', PFloat 2)] (store_but 7 1 9)"
proof -
  have h: "array_data (store (7::nat)) 0 = array_data (store_but 7 1 9) 0"
    by (simp add: store_def store_but_def)
  have d: "array_data (store (7::nat)) 1 \<noteq> array_data (store_but 7 1 9) 1"
    by (simp add: store_def store_but_def)
  show ?thesis
    by (intro conjI h d
          invocations_depend_on_receiver_and_arguments_only
            [OF h, where ivy = "stub PNone :: (nat, unit, unit) namespace"
               and ivy' = "raising ''boom'' :: (nat, string, unit) namespace"])
qed

end
